theory Spec2Isabelle
  imports Main "HOL-Library.Finite_Map"
begin

section \<open>The module registry of go-modules\<close>

text \<open>
  The development follows \<^verbatim>\<open>modules.go\<close> (the registry with generic and specific
  ids) and the second \<^verbatim>\<open>GenericModule\<close> of \<^verbatim>\<open>generic-module.go\<close> (the one with
  \<^verbatim>\<open>genericId\<close> and \<^verbatim>\<open>specificId\<close>).

  Go maps are finite maps. Reading a missing key of a map of maps yields the nil map, and a
  nil map reads as an empty one (\<^verbatim>\<open>len\<close> is 0, \<^verbatim>\<open>range\<close> runs no iteration, an index
  expression finds nothing, \<^verbatim>\<open>delete\<close> does nothing); only the comparison with
  \<^verbatim>\<open>nil\<close> tells the two apart. A missing key is \<open>None\<close> of \<open>fmlookup\<close>; the
  registry never stores a nil map under a key (every stored map comes from \<^verbatim>\<open>make\<close>).
\<close>

subsection \<open>Errors\<close>

text \<open>
  An error built by \<^verbatim>\<open>fmt.Errorf\<close> is kept as its format string and its arguments
  (the text that \<^verbatim>\<open>%q\<close> produces is not computed).
\<close>

datatype error = Errorf string "string list"

subsection \<open>The Module interface\<close>

text \<open>
  A module is an interface value: a reference \<open>'m\<close> compared by identity
  (\<^verbatim>\<open>m == module\<close>), whose methods are given by the implementation. \<open>'w\<close> is the state of
  the program outside the registry (the module objects). The identity methods read it; the
  hooks \<^verbatim>\<open>Register\<close> and \<^verbatim>\<open>Unregister\<close> may change it and return \<^verbatim>\<open>nil\<close> (\<open>None\<close>)
  or an error. Only the methods that matter to the registry are part of the record. A nil
  interface value is not a member of \<open>'m\<close> (\<^verbatim>\<open>RegisterModule(nil)\<close> panics at its first
  method call), and hooks do not call back into the registry.
\<close>

record ('m, 'w) Module =
  GenericId :: "'m \<Rightarrow> 'w \<Rightarrow> string"
  SpecificId :: "'m \<Rightarrow> 'w \<Rightarrow> string"
  Type :: "'m \<Rightarrow> 'w \<Rightarrow> string"
  Register :: "'m \<Rightarrow> 'w \<Rightarrow> error option \<times> 'w"
  Unregister :: "'m \<Rightarrow> 'w \<Rightarrow> error option \<times> 'w"

subsection \<open>Registry state\<close>

type_synonym 'm ModuleMap = "(string, 'm) fmap"

type_synonym 'm FullModuleMap = "(string, 'm ModuleMap) fmap"

record ('m, 'w) state =
  world :: 'w
  registeredModulesByType :: "(string, 'm FullModuleMap) fmap"
  registeredModulesById :: "'m FullModuleMap"

text \<open>\<^verbatim>\<open>init()\<close>: both indices start as empty maps.\<close>

definition init :: "'w \<Rightarrow> ('m, 'w) state" where
  "init w = \<lparr>world = w, registeredModulesByType = fmempty, registeredModulesById = fmempty\<rparr>"

subsection \<open>Go map operations on nested maps\<close>

text \<open>\<^verbatim>\<open>len(m)\<close>.\<close>

definition len :: "('k, 'v) fmap \<Rightarrow> nat" where
  "len m = card (fmdom' m)"

text \<open>\<^verbatim>\<open>fm[k]\<close> read as a map: a missing key gives the nil map, which reads as empty.\<close>

definition index_map :: "('k, ('a, 'b) fmap) fmap \<Rightarrow> 'k \<Rightarrow> ('a, 'b) fmap" where
  "index_map fm k = (case fmlookup fm k of None \<Rightarrow> fmempty | Some b \<Rightarrow> b)"

text \<open>\<^verbatim>\<open>fm[g][s]\<close> read as a value: \<open>None\<close> is the zero value, with \<^verbatim>\<open>ok\<close> false.\<close>

definition index2 :: "('k, ('a, 'b) fmap) fmap \<Rightarrow> 'k \<Rightarrow> 'a \<Rightarrow> 'b option" where
  "index2 fm g s = fmlookup (index_map fm g) s"

text \<open>
  A change made in place to the map object stored at \<^verbatim>\<open>fm[k]\<close>: maps are references, so
  the change is seen through \<^verbatim>\<open>fm\<close>. When \<^verbatim>\<open>fm[k]\<close> is nil nothing changes (this is
  \<^verbatim>\<open>delete\<close> on a nil map).
\<close>

definition update_at ::
  "('k, ('a, 'b) fmap) fmap \<Rightarrow> 'k \<Rightarrow> (('a, 'b) fmap \<Rightarrow> ('a, 'b) fmap) \<Rightarrow> ('k, ('a, 'b) fmap) fmap" where
  "update_at fm k f = (case fmlookup fm k of None \<Rightarrow> fm | Some b \<Rightarrow> fmupd k (f b) fm)"

subsection \<open>RegisterModule\<close>

text \<open>
  The three guards create the missing maps, so the two assignments that follow never
  write into a nil map.
\<close>

definition RegisterModule ::
  "('m, 'w) Module \<Rightarrow> 'm \<Rightarrow> ('m, 'w) state \<Rightarrow> error option \<times> ('m, 'w) state" where
  "RegisterModule impl module st =
    (let genericModuleId = GenericId impl module (world st);
         specificModuleId = SpecificId impl module (world st)
     in case index2 (registeredModulesById st) genericModuleId specificModuleId of
          Some _ \<Rightarrow>
            (Some (Errorf ''id colision detected : %q / %q''
                     [genericModuleId, specificModuleId]), st)
        | None \<Rightarrow>
            (case Register impl module (world st) of
               (Some err, w') \<Rightarrow> (Some err, st\<lparr>world := w'\<rparr>)
             | (None, w') \<Rightarrow>
                 (let moduleType = Type impl module w';
                      byType = registeredModulesByType st;
                      byId = registeredModulesById st;
                      byType1 = (if fmlookup byType moduleType = None
                                 then fmupd moduleType fmempty byType else byType);
                      byType2 = (if fmlookup (index_map byType1 moduleType) genericModuleId = None
                                 then update_at byType1 moduleType (fmupd genericModuleId fmempty)
                                 else byType1);
                      byId1 = (if fmlookup byId genericModuleId = None
                               then fmupd genericModuleId fmempty byId else byId);
                      byType3 = update_at byType2 moduleType
                                  (\<lambda>fm. update_at fm genericModuleId (fmupd specificModuleId module));
                      byId2 = update_at byId1 genericModuleId (fmupd specificModuleId module)
                  in (None, st\<lparr>world := w', registeredModulesByType := byType3,
                                registeredModulesById := byId2\<rparr>))))"

subsection \<open>UnregisterModule\<close>

text \<open>
  The body of \<^verbatim>\<open>if m == module\<close>, run for the key \<^verbatim>\<open>id\<close> (here \<open>id'\<close>) at which the loop found
  the module. \<^verbatim>\<open>typeModuleMap\<close> is the map object stored at
  \<^verbatim>\<open>registeredModulesByType[moduleType][genericModuleId]\<close>, so the first \<^verbatim>\<open>delete\<close>
  is seen through the index.
\<close>

definition UnregisterModule_found ::
  "string \<Rightarrow> string \<Rightarrow> string \<Rightarrow> string \<Rightarrow> ('m, 'w) state \<Rightarrow> ('m, 'w) state" where
  "UnregisterModule_found id' moduleType genericModuleId specificModuleId st =
    (let byType = registeredModulesByType st;
         byId = registeredModulesById st;
         byType1 = update_at byType moduleType (\<lambda>fm. update_at fm genericModuleId (fmdrop id'));
         byType2 = (if len (index_map (index_map byType1 moduleType) genericModuleId) = 0
                    then update_at byType1 moduleType (fmdrop genericModuleId) else byType1);
         byType3 = (if len (index_map byType2 moduleType) = 0
                    then fmdrop moduleType byType2 else byType2);
         byId1 = update_at byId genericModuleId (fmdrop specificModuleId);
         byId2 = (if len (index_map byId1 genericModuleId) = 0
                  then fmdrop genericModuleId byId1 else byId1)
     in st\<lparr>registeredModulesByType := byType3, registeredModulesById := byId2\<rparr>)"

text \<open>
  The \<^verbatim>\<open>range\<close> loop over \<^verbatim>\<open>typeModuleMap\<close>. Go leaves the iteration order of a map
  unspecified, so the order \<open>ks\<close> in which the keys are visited is an argument; the loop
  returns at the first key whose value is the module itself.
\<close>

fun UnregisterModule_range ::
  "string list \<Rightarrow> 'm ModuleMap \<Rightarrow> 'm \<Rightarrow> string \<Rightarrow> string \<Rightarrow> string \<Rightarrow> ('m, 'w) state
     \<Rightarrow> error option \<times> ('m, 'w) state" where
  "UnregisterModule_range [] typeModuleMap module moduleType genericModuleId specificModuleId st =
     (Some (Errorf ''module not found'' []), st)"
| "UnregisterModule_range (id' # ids) typeModuleMap module moduleType genericModuleId specificModuleId st =
     (if fmlookup typeModuleMap id' = Some module
      then (None, UnregisterModule_found id' moduleType genericModuleId specificModuleId st)
      else UnregisterModule_range ids typeModuleMap module moduleType genericModuleId
             specificModuleId st)"

definition UnregisterModule ::
  "('m, 'w) Module \<Rightarrow> string list \<Rightarrow> 'm \<Rightarrow> ('m, 'w) state \<Rightarrow> error option \<times> ('m, 'w) state" where
  "UnregisterModule impl ks module st =
    (let moduleType = Type impl module (world st);
         genericModuleId = GenericId impl module (world st);
         specificModuleId = SpecificId impl module (world st);
         typeModuleMap = index_map (index_map (registeredModulesByType st) moduleType)
                           genericModuleId
     in UnregisterModule_range ks typeModuleMap module moduleType genericModuleId
          specificModuleId st)"

text \<open>An iteration order of a map visits every key of the map once.\<close>

definition range_order :: "'k list \<Rightarrow> ('k, 'v) fmap \<Rightarrow> bool" where
  "range_order ks m = (distinct ks \<and> set ks = fmdom' m)"

subsection \<open>Queries\<close>

text \<open>A query that returns a map returns \<open>None\<close> for the nil map.\<close>

definition GetModulesByType :: "string \<Rightarrow> ('m, 'w) state \<Rightarrow> 'm FullModuleMap option" where
  "GetModulesByType moduleType st = fmlookup (registeredModulesByType st) moduleType"

text \<open>
  The loop adds \<^verbatim>\<open>len(s)\<close> for every value of the map; the sum does not depend on the
  order of the iteration.
\<close>

definition countFullModuleMap :: "'m FullModuleMap \<Rightarrow> nat" where
  "countFullModuleMap fullModuleMap = (\<Sum>g \<in> fmdom' fullModuleMap. len (index_map fullModuleMap g))"

definition GetModuleCountByType :: "string \<Rightarrow> ('m, 'w) state \<Rightarrow> nat" where
  "GetModuleCountByType moduleType st =
     countFullModuleMap (case GetModulesByType moduleType st of None \<Rightarrow> fmempty | Some fm \<Rightarrow> fm)"

definition GetModulesByGenericId :: "string \<Rightarrow> ('m, 'w) state \<Rightarrow> 'm ModuleMap option" where
  "GetModulesByGenericId genericModuleId st = fmlookup (registeredModulesById st) genericModuleId"

definition GetModuleCountByGenericId :: "string \<Rightarrow> ('m, 'w) state \<Rightarrow> nat" where
  "GetModuleCountByGenericId genericModuleId st =
     len (case GetModulesByGenericId genericModuleId st of None \<Rightarrow> fmempty | Some b \<Rightarrow> b)"

definition GetModuleById :: "string \<Rightarrow> string \<Rightarrow> ('m, 'w) state \<Rightarrow> 'm option" where
  "GetModuleById genericModuleId specificModuleId st =
     index2 (registeredModulesById st) genericModuleId specificModuleId"

definition GetDefaultModuleByGenericId :: "string \<Rightarrow> ('m, 'w) state \<Rightarrow> 'm option" where
  "GetDefaultModuleByGenericId genericModuleId st =
     index2 (registeredModulesById st) genericModuleId ''''"

definition GetAllModules :: "('m, 'w) state \<Rightarrow> 'm FullModuleMap" where
  "GetAllModules st = registeredModulesById st"

definition GetAllModulesCount :: "('m, 'w) state \<Rightarrow> nat" where
  "GetAllModulesCount st = countFullModuleMap (GetAllModules st)"

subsection \<open>GenericModule\<close>

type_synonym ParameterMap = "(string, string) fmap"

text \<open>
  A \<^verbatim>\<open>*ParameterMap\<close> is an address in a heap of parameter maps, or nil (\<open>None\<close>). The
  heap is the list of the maps allocated so far, and the address of a map is its position.
\<close>

type_synonym addr = nat

type_synonym heap = "ParameterMap list"

record GenericModule =
  name :: string
  version :: string
  genericId :: string
  specificId :: string
  moduleType :: string
  parameters :: "addr option"
  ready :: bool

text \<open>
  \<^verbatim>\<open>NewGenericModule\<close> allocates the empty map of \<^verbatim>\<open>&ParameterMap{}\<close> and returns the
  new struct, which the caller holds by pointer. The methods have pointer receivers: they
  are functions of the struct pointed to, and a method that writes a field returns the struct
  updated.
\<close>

definition NewGenericModule ::
  "string \<Rightarrow> string \<Rightarrow> string \<Rightarrow> string \<Rightarrow> string \<Rightarrow> heap \<Rightarrow> GenericModule \<times> heap" where
  "NewGenericModule name' version' genericId' specificId' moduleType' h =
     (\<lparr>name = name', version = version', genericId = genericId', specificId = specificId',
       moduleType = moduleType', parameters = Some (length h), ready = False\<rparr>,
      h @ [fmempty])"

definition GenericModule_Name :: "GenericModule \<Rightarrow> string" where
  "GenericModule_Name gm = name gm"

definition GenericModule_Version :: "GenericModule \<Rightarrow> string" where
  "GenericModule_Version gm = version gm"

definition GenericModule_GenericId :: "GenericModule \<Rightarrow> string" where
  "GenericModule_GenericId gm = genericId gm"

definition GenericModule_SpecificId :: "GenericModule \<Rightarrow> string" where
  "GenericModule_SpecificId gm = specificId gm"

definition GenericModule_Type :: "GenericModule \<Rightarrow> string" where
  "GenericModule_Type gm = moduleType gm"

definition GenericModule_Register :: "GenericModule \<Rightarrow> error option" where
  "GenericModule_Register gm = None"

definition GenericModule_Unregister :: "GenericModule \<Rightarrow> error option" where
  "GenericModule_Unregister gm = None"

definition GenericModule_Parameters :: "GenericModule \<Rightarrow> addr option" where
  "GenericModule_Parameters gm = parameters gm"

definition GenericModule_Configure ::
  "GenericModule \<Rightarrow> addr option \<Rightarrow> error option \<times> GenericModule" where
  "GenericModule_Configure gm parameters' = (None, gm\<lparr>parameters := parameters'\<rparr>)"

text \<open>\<^verbatim>\<open>Duplicate\<close> returns no module (\<^verbatim>\<open>nil\<close>) and an error.\<close>

definition GenericModule_Duplicate ::
  "GenericModule \<Rightarrow> string \<Rightarrow> addr option \<times> error option" where
  "GenericModule_Duplicate gm specificId' =
     (None, Some (Errorf ''generic module can not be duplicated'' []))"

definition GenericModule_Ready :: "GenericModule \<Rightarrow> bool" where
  "GenericModule_Ready gm = ready gm"

definition GenericModule_SetReady :: "GenericModule \<Rightarrow> bool \<Rightarrow> GenericModule" where
  "GenericModule_SetReady gm ready' = gm\<lparr>ready := ready'\<rparr>"

text \<open>
  \<^verbatim>\<open>*GenericModule\<close> implements \<^verbatim>\<open>Module\<close>: the module reference is the address of the
  struct, and the state outside the registry gives the struct at every address.
\<close>

definition GenericModule_impl :: "(addr, addr \<Rightarrow> GenericModule) Module" where
  "GenericModule_impl =
     \<lparr>GenericId = (\<lambda>gm w. GenericModule_GenericId (w gm)),
      SpecificId = (\<lambda>gm w. GenericModule_SpecificId (w gm)),
      Type = (\<lambda>gm w. GenericModule_Type (w gm)),
      Register = (\<lambda>gm w. (GenericModule_Register (w gm), w)),
      Unregister = (\<lambda>gm w. (GenericModule_Unregister (w gm), w))\<rparr>"

subsection \<open>Properties of registry states\<close>

text \<open>\<^verbatim>\<open>registeredModulesByType[t][g][s]\<close>, which is also \<^verbatim>\<open>GetModulesByType(t)[g][s]\<close>.\<close>

definition by_type :: "('m, 'w) state \<Rightarrow> string \<Rightarrow> string \<Rightarrow> string \<Rightarrow> 'm option" where
  "by_type st t g s = index2 (index_map (registeredModulesByType st) t) g s"

text \<open>The pairs of keys under which a map of maps holds a value.\<close>

definition entries :: "('k, ('a, 'b) fmap) fmap \<Rightarrow> ('k \<times> 'a) set" where
  "entries fm = {(g, s). index2 fm g s \<noteq> None}"

text \<open>No index holds an empty map, at any level.\<close>

definition no_empty_values :: "('k, ('a, 'b) fmap) fmap \<Rightarrow> bool" where
  "no_empty_values fm = (\<forall>k b. fmlookup fm k = Some b \<longrightarrow> b \<noteq> fmempty)"

definition no_empty_buckets :: "('m, 'w) state \<Rightarrow> bool" where
  "no_empty_buckets st =
     (no_empty_values (registeredModulesByType st) \<and>
      (\<forall>t fm. fmlookup (registeredModulesByType st) t = Some fm \<longrightarrow> no_empty_values fm) \<and>
      no_empty_values (registeredModulesById st))"

text \<open>
  The pattern that \<^verbatim>\<open>UnregisterModule\<close> applies at each level: delete a key of the map
  stored at \<^verbatim>\<open>fm[g]\<close>, then delete \<^verbatim>\<open>g\<close> itself when that map has become empty.
\<close>

definition delete_pruned :: "('k, ('a, 'b) fmap) fmap \<Rightarrow> 'k \<Rightarrow> 'a \<Rightarrow> ('k, ('a, 'b) fmap) fmap" where
  "delete_pruned fm g s =
     (let fm1 = update_at fm g (fmdrop s)
      in if len (index_map fm1 g) = 0 then fmdrop g fm1 else fm1)"

text \<open>
  Every module of the registry sits, in both indices, under the keys that its identity
  methods report now: its identity is what it was when it was registered.
\<close>

definition registry_inv :: "('m, 'w) Module \<Rightarrow> ('m, 'w) state \<Rightarrow> bool" where
  "registry_inv impl st =
     ((\<forall>t g s m. by_type st t g s = Some m \<longrightarrow>
         GetModuleById g s st = Some m \<and> Type impl m (world st) = t \<and>
         GenericId impl m (world st) = g \<and> SpecificId impl m (world st) = s) \<and>
      (\<forall>g s m. GetModuleById g s st = Some m \<longrightarrow>
         by_type st (Type impl m (world st)) g s = Some m \<and>
         GenericId impl m (world st) = g \<and> SpecificId impl m (world st) = s) \<and>
      no_empty_buckets st)"

text \<open>
  The module sits in both indices under the keys that its identity methods report now, and
  under no other key: it is registered, and its identity is what it was when it was
  registered.
\<close>

definition registered :: "('m, 'w) Module \<Rightarrow> 'm \<Rightarrow> ('m, 'w) state \<Rightarrow> bool" where
  "registered impl M st =
     (by_type st (Type impl M (world st)) (GenericId impl M (world st))
        (SpecificId impl M (world st)) = Some M \<and>
      GetModuleById (GenericId impl M (world st)) (SpecificId impl M (world st)) st = Some M \<and>
      (\<forall>t g s. by_type st t g s = Some M \<longrightarrow>
         t = Type impl M (world st) \<and> g = GenericId impl M (world st) \<and>
         s = SpecificId impl M (world st)) \<and>
      (\<forall>g s. GetModuleById g s st = Some M \<longrightarrow>
         g = GenericId impl M (world st) \<and> s = SpecificId impl M (world st)))"

text \<open>Every module reports the same identity in the two states of the module objects.\<close>

definition same_identity :: "('m, 'w) Module \<Rightarrow> 'w \<Rightarrow> 'w \<Rightarrow> bool" where
  "same_identity impl w w' =
     (\<forall>m. GenericId impl m w = GenericId impl m w' \<and>
          SpecificId impl m w = SpecificId impl m w' \<and>
          Type impl m w = Type impl m w')"

text \<open>No \<^verbatim>\<open>Register\<close> hook changes the identity of a module.\<close>

definition hooks_keep_identity :: "('m, 'w) Module \<Rightarrow> bool" where
  "hooks_keep_identity impl = (\<forall>m w. same_identity impl w (snd (Register impl m w)))"

text \<open>
  The states that calls of \<^verbatim>\<open>RegisterModule\<close> and \<^verbatim>\<open>UnregisterModule\<close> reach from
  the initial one, whatever their results. Between the calls the rest of the program may
  change the module objects, but not the identity of a module. The loop of
  \<^verbatim>\<open>UnregisterModule\<close> may visit the keys of its bucket in any order.
\<close>

inductive reachable :: "('m, 'w) Module \<Rightarrow> ('m, 'w) state \<Rightarrow> bool" for impl where
  reachable_init: "reachable impl (init w)"
| reachable_register:
    "reachable impl st \<Longrightarrow> reachable impl (snd (RegisterModule impl m st))"
| reachable_unregister:
    "reachable impl st \<Longrightarrow>
     range_order ks (index_map (index_map (registeredModulesByType st) (Type impl m (world st)))
                       (GenericId impl m (world st))) \<Longrightarrow>
     reachable impl (snd (UnregisterModule impl ks m st))"
| reachable_world:
    "reachable impl st \<Longrightarrow> same_identity impl (world st) w \<Longrightarrow>
     reachable impl (st\<lparr>world := w\<rparr>)"

subsection \<open>The modules of the examples\<close>

text \<open>
  The two modules of the example program: the default instance of \<^verbatim>\<open>complete-module\<close> at
  address 0 and the instance \<^verbatim>\<open>specific\<close> at address 1, both of type \<^verbatim>\<open>sample-module\<close>.
\<close>

definition example_world :: "addr \<Rightarrow> GenericModule" where
  "example_world a =
     (if a = 0 then fst (NewGenericModule ''Complete Module'' ''1.0.0'' ''complete-module'' ''''
                           ''sample-module'' [])
      else fst (NewGenericModule ''Complete Module / Specific'' ''1.0.0'' ''complete-module''
                  ''specific'' ''sample-module'' [fmempty]))"

text \<open>The registry of the example program before any registration.\<close>

definition example_init :: "(addr, addr \<Rightarrow> GenericModule) state" where
  "example_init = init example_world"

text \<open>
  A module type that embeds \<^verbatim>\<open>*GenericModule\<close>, as the example modules do, and overrides
  \<^verbatim>\<open>Unregister\<close> so that a call leaves a mark: the hook sets the ready flag of its module.
\<close>

definition marking_impl :: "(addr, addr \<Rightarrow> GenericModule) Module" where
  "marking_impl =
     GenericModule_impl
       \<lparr>Unregister := \<lambda>gm w. (None, w(gm := GenericModule_SetReady (w gm) True))\<rparr>"

section \<open>Lemmas about nested maps\<close>

lemma index_map_fmupd: "index_map (fmupd k v fm) k' = (if k = k' then v else index_map fm k')"
  by (simp add: index_map_def)

lemma index_map_fmdrop: "index_map (fmdrop k fm) k' = (if k = k' then fmempty else index_map fm k')"
  by (simp add: index_map_def)

lemma index_map_fmempty: "index_map fmempty k = fmempty"
  by (simp add: index_map_def)

lemma index_map_update_at:
  "index_map (update_at fm k f) k' =
     (if k = k' \<and> fmlookup fm k \<noteq> None then f (index_map fm k) else index_map fm k')"
  by (auto simp: index_map_def update_at_def split: option.splits)

lemma fmlookup_update_at:
  "fmlookup (update_at fm k f) k' =
     (if k = k' then map_option f (fmlookup fm k) else fmlookup fm k')"
  by (auto simp: update_at_def split: option.splits)

lemma len_0_iff: "len m = 0 \<longleftrightarrow> m = fmempty"
proof
  assume "len m = 0"
  then have "fmdom' m = {}" by (simp add: len_def)
  then have "\<And>k. fmlookup m k = None" by (metis fmdom'_notD empty_iff)
  then show "m = fmempty" by (intro fmap_ext) simp
qed (simp add: len_def)

lemma entries_Sigma: "entries fm = (SIGMA g : fmdom' fm. fmdom' (index_map fm g))"
  by (auto simp: entries_def index2_def index_map_def fmlookup_dom'_iff split: option.splits)

lemma finite_entries: "finite (entries fm)"
  by (simp add: entries_Sigma)

lemma countFullModuleMap_card: "countFullModuleMap fm = card (entries fm)"
  by (simp add: countFullModuleMap_def entries_Sigma len_def)

section \<open>The effect of the two operations\<close>

lemma RegisterModule_success:
  assumes "index2 (registeredModulesById st) (GenericId impl M (world st)) (SpecificId impl M (world st)) = None"
    and "Register impl M (world st) = (None, w')"
  shows "RegisterModule impl M st =
     (None, st\<lparr>world := w',
        registeredModulesByType :=
          fmupd (Type impl M w')
            (fmupd (GenericId impl M (world st))
               (fmupd (SpecificId impl M (world st)) M
                  (index_map (index_map (registeredModulesByType st) (Type impl M w'))
                     (GenericId impl M (world st))))
               (index_map (registeredModulesByType st) (Type impl M w')))
            (registeredModulesByType st),
        registeredModulesById :=
          fmupd (GenericId impl M (world st))
            (fmupd (SpecificId impl M (world st)) M
               (index_map (registeredModulesById st) (GenericId impl M (world st))))
            (registeredModulesById st)\<rparr>)"
  using assms
  by (auto simp: RegisterModule_def Let_def update_at_def index_map_def split: option.splits)

lemma index2_insert:
  "index2 (fmupd G (fmupd S M (index_map fm G)) fm) g s =
     (if g = G \<and> s = S then Some M else index2 fm g s)"
  by (auto simp: index2_def index_map_def)

lemma entries_insert:
  "entries (fmupd G (fmupd S M (index_map fm G)) fm) = insert (G, S) (entries fm)"
  by (auto simp: entries_def index2_insert split: if_splits)

lemma count_insert:
  assumes "index2 fm G S = None"
  shows "countFullModuleMap (fmupd G (fmupd S M (index_map fm G)) fm) = countFullModuleMap fm + 1"
proof -
  have "(G, S) \<notin> entries fm" using assms by (simp add: entries_def)
  then show ?thesis
    by (simp add: countFullModuleMap_card entries_insert finite_entries)
qed

lemma index_map_update_at_drop:
  "index_map (update_at fm k (fmdrop s)) k' =
     (if k = k' then fmdrop s (index_map fm k) else index_map fm k')"
  by (auto simp: index_map_def update_at_def split: option.splits)

lemma index_map_prune:
  "index_map (if len (index_map fm g) = 0 then fmdrop g fm else fm) g' = index_map fm g'"
  by (simp add: len_0_iff index_map_fmdrop)

lemma index_map2_update_at_drop:
  "index_map (index_map (update_at fm t (\<lambda>x. update_at x g (fmdrop s))) t') g' =
     (if t = t' \<and> g = g' then fmdrop s (index_map (index_map fm t) g)
      else index_map (index_map fm t') g')"
  by (auto simp: index_map_def update_at_def split: option.splits)

lemma index_map2_prune:
  "index_map (index_map (if len (index_map (index_map fm t) g) = 0
                          then update_at fm t (fmdrop g) else fm) t') g' =
   index_map (index_map fm t') g'"
  by (auto simp: len_0_iff index_map_update_at_drop index_map_fmdrop index_map_fmempty)

lemma found_byId_map:
  "index_map (registeredModulesById (UnregisterModule_found k T G S st)) g =
     (if G = g then fmdrop S (index_map (registeredModulesById st) G)
      else index_map (registeredModulesById st) g)"
proof -
  let ?b1 = "update_at (registeredModulesById st) G (fmdrop S)"
  have "registeredModulesById (UnregisterModule_found k T G S st) =
          (if len (index_map ?b1 G) = 0 then fmdrop G ?b1 else ?b1)"
    by (simp add: UnregisterModule_found_def Let_def)
  then have "index_map (registeredModulesById (UnregisterModule_found k T G S st)) g =
               index_map ?b1 g"
    by (simp only: index_map_prune)
  then show ?thesis
    by (simp only: index_map_update_at_drop)
qed

lemma found_byId:
  "index2 (registeredModulesById (UnregisterModule_found k T G S st)) g s =
     (if g = G \<and> s = S then None else index2 (registeredModulesById st) g s)"
  by (simp add: index2_def found_byId_map)

lemma found_byType_map:
  "index_map (index_map (registeredModulesByType (UnregisterModule_found k T G S st)) t) g =
     (if T = t \<and> G = g then fmdrop k (index_map (index_map (registeredModulesByType st) T) G)
      else index_map (index_map (registeredModulesByType st) t) g)"
proof -
  let ?b1 = "update_at (registeredModulesByType st) T (\<lambda>fm. update_at fm G (fmdrop k))"
  let ?b2 = "if len (index_map (index_map ?b1 T) G) = 0 then update_at ?b1 T (fmdrop G) else ?b1"
  have "registeredModulesByType (UnregisterModule_found k T G S st) =
          (if len (index_map ?b2 T) = 0 then fmdrop T ?b2 else ?b2)"
    by (simp add: UnregisterModule_found_def Let_def)
  then have "index_map (registeredModulesByType (UnregisterModule_found k T G S st)) t =
               index_map ?b2 t"
    by (simp only: index_map_prune)
  then have "index_map (index_map (registeredModulesByType (UnregisterModule_found k T G S st)) t) g =
               index_map (index_map ?b1 t) g"
    by (simp only: index_map2_prune)
  then show ?thesis
    by (simp only: index_map2_update_at_drop)
qed

lemma found_byType:
  "by_type (UnregisterModule_found k T G S st) t g s =
     (if t = T \<and> g = G \<and> s = k then None else by_type st t g s)"
  by (simp add: by_type_def index2_def found_byType_map)

lemma found_world: "world (UnregisterModule_found k T G S st) = world st"
  by (simp add: UnregisterModule_found_def Let_def)

lemma found_byId_eq:
  "registeredModulesById (UnregisterModule_found k T G S st) =
     delete_pruned (registeredModulesById st) G S"
  by (simp add: UnregisterModule_found_def delete_pruned_def Let_def)

lemma update_at_twice:
  "update_at (update_at fm k f) k h = update_at fm k (\<lambda>x. h (f x))"
  by (simp add: update_at_def split: option.splits)

lemma found_byType_inner:
  "(if len (index_map (index_map (update_at fm T (\<lambda>x. update_at x G (fmdrop k))) T) G) = 0
    then update_at (update_at fm T (\<lambda>x. update_at x G (fmdrop k))) T (fmdrop G)
    else update_at fm T (\<lambda>x. update_at x G (fmdrop k))) =
   update_at fm T (\<lambda>x. delete_pruned x G k)"
proof (cases "fmlookup fm T")
  case None
  then show ?thesis by (simp add: update_at_def)
next
  case (Some x)
  then show ?thesis
    by (simp add: update_at_twice delete_pruned_def Let_def index_map_update_at)
       (simp add: update_at_def index_map_def)
qed

lemma found_byType_eq:
  "registeredModulesByType (UnregisterModule_found k T G S st) =
     (let b2 = update_at (registeredModulesByType st) T (\<lambda>x. delete_pruned x G k)
      in if len (index_map b2 T) = 0 then fmdrop T b2 else b2)"
  unfolding UnregisterModule_found_def Let_def found_byType_inner by simp

lemma no_empty_values_prune:
  assumes "no_empty_values fm" and "\<And>k. k \<noteq> g \<Longrightarrow> fmlookup fm1 k = fmlookup fm k"
  shows "no_empty_values (if len (index_map fm1 g) = 0 then fmdrop g fm1 else fm1)"
proof (cases "len (index_map fm1 g) = 0")
  case True
  with assms show ?thesis by (auto simp: no_empty_values_def)
next
  case False
  then have "\<And>b. fmlookup fm1 g = Some b \<Longrightarrow> b \<noteq> fmempty"
    by (auto simp: index_map_def len_def)
  with False assms show ?thesis
    by (auto simp: no_empty_values_def) metis
qed

lemma no_empty_values_delete_pruned:
  "no_empty_values fm \<Longrightarrow> no_empty_values (delete_pruned fm g s)"
  unfolding delete_pruned_def Let_def
  by (rule no_empty_values_prune) (simp_all add: fmlookup_update_at)

lemma found_no_empty_buckets:
  assumes "no_empty_buckets st"
  shows "no_empty_buckets (UnregisterModule_found k T G S st)"
proof -
  let ?bt = "registeredModulesByType st"
  let ?b2 = "update_at ?bt T (\<lambda>x. delete_pruned x G k)"
  let ?b3 = "if len (index_map ?b2 T) = 0 then fmdrop T ?b2 else ?b2"
  have bt: "registeredModulesByType (UnregisterModule_found k T G S st) = ?b3"
    by (simp add: found_byType_eq Let_def)
  have 1: "no_empty_values ?b3"
    using assms by (intro no_empty_values_prune) (simp_all add: no_empty_buckets_def fmlookup_update_at)
  have 2: "no_empty_values fm" if "fmlookup ?b3 t = Some fm" for t fm
  proof (cases "t = T")
    case True
    with that have "fmlookup ?b2 T = Some fm" by (auto split: if_splits)
    then obtain fm0 where "fmlookup ?bt T = Some fm0" "fm = delete_pruned fm0 G k"
      by (auto simp: fmlookup_update_at)
    with assms show ?thesis
      by (auto simp: no_empty_buckets_def intro: no_empty_values_delete_pruned)
  next
    case False
    with that have "fmlookup ?bt t = Some fm"
      by (auto simp: fmlookup_update_at split: if_splits)
    with assms show ?thesis by (auto simp: no_empty_buckets_def)
  qed
  have 3: "no_empty_values (registeredModulesById (UnregisterModule_found k T G S st))"
    using assms by (simp add: found_byId_eq no_empty_buckets_def no_empty_values_delete_pruned)
  from 1 2 3 show ?thesis
    unfolding no_empty_buckets_def bt by blast
qed

lemma fmupd_neq_empty: "fmupd k v m \<noteq> fmempty"
  by (metis fmupd_lookup fmempty_lookup option.distinct(1))

lemma no_empty_values_insert:
  "no_empty_values fm \<Longrightarrow> b \<noteq> fmempty \<Longrightarrow> no_empty_values (fmupd g b fm)"
  by (simp add: no_empty_values_def)

lemma no_empty_values_index_map:
  "(\<And>b. fmlookup fm t = Some b \<Longrightarrow> no_empty_values b) \<Longrightarrow> no_empty_values (index_map fm t)"
  by (auto simp: index_map_def no_empty_values_def split: option.splits)

lemma RegisterModule_cases:
  obtains (collision) x where
      "index2 (registeredModulesById st) (GenericId impl M (world st)) (SpecificId impl M (world st)) = Some x"
      "RegisterModule impl M st =
         (Some (Errorf ''id colision detected : %q / %q''
            [GenericId impl M (world st), SpecificId impl M (world st)]), st)"
  | (hook) err w' where
      "index2 (registeredModulesById st) (GenericId impl M (world st)) (SpecificId impl M (world st)) = None"
      "Register impl M (world st) = (Some err, w')"
      "RegisterModule impl M st = (Some err, st\<lparr>world := w'\<rparr>)"
  | (success) w' where
      "index2 (registeredModulesById st) (GenericId impl M (world st)) (SpecificId impl M (world st)) = None"
      "Register impl M (world st) = (None, w')"
proof (cases "index2 (registeredModulesById st) (GenericId impl M (world st)) (SpecificId impl M (world st))")
  case None
  show ?thesis
  proof (cases "Register impl M (world st)")
    case (Pair e w')
    show ?thesis
    proof (cases e)
      case None
      with Pair \<open>index2 _ _ _ = None\<close> show ?thesis by (intro success) auto
    next
      case (Some err)
      with Pair \<open>index2 _ _ _ = None\<close> show ?thesis
        by (intro hook[of err w']) (auto simp: RegisterModule_def Let_def)
    qed
  qed
next
  case (Some x)
  then show ?thesis
    by (intro collision[of x]) (auto simp: RegisterModule_def Let_def)
qed

lemma UnregisterModule_range_cases:
  obtains (not_found)
      "\<forall>k \<in> set ks. fmlookup b k \<noteq> Some M"
      "UnregisterModule_range ks b M T G S st = (Some (Errorf ''module not found'' []), st)"
  | (found) k where
      "k \<in> set ks" "fmlookup b k = Some M"
      "UnregisterModule_range ks b M T G S st = (None, UnregisterModule_found k T G S st)"
proof (induction ks)
  case Nil
  then show ?case by simp
next
  case (Cons a ks)
  show ?case
  proof (cases "fmlookup b a = Some M")
    case True
    then show ?thesis by (intro Cons.prems(2)[of a]) auto
  next
    case False
    show ?thesis
    proof (rule Cons.IH)
      assume "\<forall>k\<in>set ks. fmlookup b k \<noteq> Some M"
        "UnregisterModule_range ks b M T G S st = (Some (Errorf ''module not found'' []), st)"
      with False show ?thesis by (intro Cons.prems(1)) auto
    next
      fix k assume "k \<in> set ks" "fmlookup b k = Some M"
        "UnregisterModule_range ks b M T G S st = (None, UnregisterModule_found k T G S st)"
      with False show ?thesis by (intro Cons.prems(2)[of k]) auto
    qed
  qed
qed

lemma index_map_case: "(case fmlookup fm k of None \<Rightarrow> fmempty | Some b \<Rightarrow> b) = index_map fm k"
  by (simp add: index_map_def)

lemma RegisterModule_success_facts:
  assumes absent: "index2 (registeredModulesById st) (GenericId impl M (world st))
                     (SpecificId impl M (world st)) = None"
    and hook: "Register impl M (world st) = (None, w')"
  shows "fst (RegisterModule impl M st) = None"
    and "world (snd (RegisterModule impl M st)) = w'"
    and "GetModuleById g s (snd (RegisterModule impl M st)) =
           (if g = GenericId impl M (world st) \<and> s = SpecificId impl M (world st)
            then Some M else GetModuleById g s st)"
    and "by_type (snd (RegisterModule impl M st)) t g s =
           (if t = Type impl M w' \<and> g = GenericId impl M (world st) \<and>
               s = SpecificId impl M (world st)
            then Some M else by_type st t g s)"
    and "GetAllModulesCount (snd (RegisterModule impl M st)) = GetAllModulesCount st + 1"
    and "by_type st (Type impl M w') (GenericId impl M (world st)) (SpecificId impl M (world st)) = None
         \<Longrightarrow> GetModuleCountByType (Type impl M w') (snd (RegisterModule impl M st)) =
               GetModuleCountByType (Type impl M w') st + 1"
    and "no_empty_buckets st \<Longrightarrow> no_empty_buckets (snd (RegisterModule impl M st))"
proof -
  note eq = RegisterModule_success[OF absent hook]
  show "fst (RegisterModule impl M st) = None" by (simp add: eq)
  show "world (snd (RegisterModule impl M st)) = w'" by (simp add: eq)
  show "GetModuleById g s (snd (RegisterModule impl M st)) =
           (if g = GenericId impl M (world st) \<and> s = SpecificId impl M (world st)
            then Some M else GetModuleById g s st)"
    by (simp add: eq GetModuleById_def index2_insert)
  show "by_type (snd (RegisterModule impl M st)) t g s =
           (if t = Type impl M w' \<and> g = GenericId impl M (world st) \<and>
               s = SpecificId impl M (world st)
            then Some M else by_type st t g s)"
    by (simp add: eq by_type_def index_map_fmupd index2_insert)
  show "GetAllModulesCount (snd (RegisterModule impl M st)) = GetAllModulesCount st + 1"
    using absent by (simp add: eq GetAllModulesCount_def GetAllModules_def count_insert)
  show "GetModuleCountByType (Type impl M w') (snd (RegisterModule impl M st)) =
               GetModuleCountByType (Type impl M w') st + 1"
    if "by_type st (Type impl M w') (GenericId impl M (world st)) (SpecificId impl M (world st)) = None"
    using that
    by (simp add: eq GetModuleCountByType_def GetModulesByType_def index_map_case by_type_def
          count_insert)
  show "no_empty_buckets (snd (RegisterModule impl M st))" if ne: "no_empty_buckets st"
  proof -
    let ?T = "Type impl M w'" and ?G = "GenericId impl M (world st)"
    let ?bt = "registeredModulesByType st"
    have inner: "no_empty_values (fmupd ?G (fmupd (SpecificId impl M (world st)) M
                   (index_map (index_map ?bt ?T) ?G)) (index_map ?bt ?T))"
      using ne by (intro no_empty_values_insert no_empty_values_index_map)
                  (auto simp: no_empty_buckets_def fmupd_neq_empty)
    show ?thesis
      using ne inner
      by (auto simp: eq no_empty_buckets_def fmupd_neq_empty intro!: no_empty_values_insert
               split: if_splits)
  qed
qed

section \<open>The invariant of the registry\<close>

lemma registry_inv_init: "registry_inv impl (init w)"
  by (simp add: registry_inv_def init_def by_type_def GetModuleById_def index2_def index_map_def
        no_empty_buckets_def no_empty_values_def)

lemma registry_inv_world:
  assumes "same_identity impl (world st) w" "registry_inv impl st"
  shows "registry_inv impl (st\<lparr>world := w\<rparr>)"
proof -
  have "GenericId impl m w = GenericId impl m (world st)"
       "SpecificId impl m w = SpecificId impl m (world st)"
       "Type impl m w = Type impl m (world st)" for m
    using assms(1) unfolding same_identity_def by simp_all
  with assms(2) show ?thesis
    by (simp add: registry_inv_def by_type_def GetModuleById_def no_empty_buckets_def)
qed

lemma registry_invD1:
  "registry_inv impl st \<Longrightarrow> by_type st t g s = Some m \<Longrightarrow>
     GetModuleById g s st = Some m \<and> Type impl m (world st) = t \<and>
     GenericId impl m (world st) = g \<and> SpecificId impl m (world st) = s"
  unfolding registry_inv_def by blast

lemma registry_invD2:
  "registry_inv impl st \<Longrightarrow> GetModuleById g s st = Some m \<Longrightarrow>
     by_type st (Type impl m (world st)) g s = Some m \<and>
     GenericId impl m (world st) = g \<and> SpecificId impl m (world st) = s"
  unfolding registry_inv_def by blast

lemma registry_invD3: "registry_inv impl st \<Longrightarrow> no_empty_buckets st"
  unfolding registry_inv_def by blast

lemma registry_invI:
  assumes "\<And>t g s m. by_type st t g s = Some m \<Longrightarrow>
     GetModuleById g s st = Some m \<and> Type impl m (world st) = t \<and>
     GenericId impl m (world st) = g \<and> SpecificId impl m (world st) = s"
   and "\<And>g s m. GetModuleById g s st = Some m \<Longrightarrow>
     by_type st (Type impl m (world st)) g s = Some m \<and>
     GenericId impl m (world st) = g \<and> SpecificId impl m (world st) = s"
   and "no_empty_buckets st"
  shows "registry_inv impl st"
  using assms unfolding registry_inv_def by blast

lemma registry_inv_register:
  assumes stable: "hooks_keep_identity impl" and inv: "registry_inv impl st"
  shows "registry_inv impl (snd (RegisterModule impl M st))"
proof (cases rule: RegisterModule_cases[of st impl M])
  case (collision x)
  with inv show ?thesis by simp
next
  case (hook err w')
  from stable have "same_identity impl (world st) (snd (Register impl M (world st)))"
    unfolding hooks_keep_identity_def by blast
  with hook have "same_identity impl (world st) w'" by simp
  from registry_inv_world[OF this inv] hook show ?thesis by simp
next
  case (success w')
  note f = RegisterModule_success_facts[OF success]
  let ?st' = "snd (RegisterModule impl M st)"
  let ?G = "GenericId impl M (world st)" and ?S = "SpecificId impl M (world st)"
  let ?T = "Type impl M w'"
  from stable have "same_identity impl (world st) (snd (Register impl M (world st)))"
    unfolding hooks_keep_identity_def by blast
  with success have "same_identity impl (world st) w'" by simp
  then have id: "GenericId impl m w' = GenericId impl m (world st)"
       "SpecificId impl m w' = SpecificId impl m (world st)"
       "Type impl m w' = Type impl m (world st)" for m
    unfolding same_identity_def by simp_all
  have absent: "GetModuleById ?G ?S st = None"
    using success(1) by (simp add: GetModuleById_def)
  show ?thesis
  proof (rule registry_invI)
    fix t g s m assume a: "by_type ?st' t g s = Some m"
    show "GetModuleById g s ?st' = Some m \<and> Type impl m (world ?st') = t \<and>
           GenericId impl m (world ?st') = g \<and> SpecificId impl m (world ?st') = s"
    proof (cases "t = ?T \<and> g = ?G \<and> s = ?S")
      case True
      with a have "m = M" by (simp add: f(4))
      with True show ?thesis by (simp add: f(2,3) id)
    next
      case False
      with a have "by_type st t g s = Some m" by (simp add: f(4))
      from registry_invD1[OF inv this] absent show ?thesis
        by (auto simp: f(2,3) id)
    qed
  next
    fix g s m assume a: "GetModuleById g s ?st' = Some m"
    show "by_type ?st' (Type impl m (world ?st')) g s = Some m \<and>
           GenericId impl m (world ?st') = g \<and> SpecificId impl m (world ?st') = s"
    proof (cases "g = ?G \<and> s = ?S")
      case True
      with a have "m = M" by (simp add: f(3))
      with True show ?thesis by (simp add: f(2,4) id)
    next
      case False
      with a have "GetModuleById g s st = Some m" by (simp add: f(3))
      from registry_invD2[OF inv this] False show ?thesis
        by (auto simp: f(2,4) id)
    qed
  next
    show "no_empty_buckets ?st'"
      using registry_invD3[OF inv] by (rule f(7))
  qed
qed

lemma found_GetModuleById:
  "GetModuleById g s (UnregisterModule_found k T G S st) =
     (if g = G \<and> s = S then None else GetModuleById g s st)"
  by (simp add: GetModuleById_def found_byId)

lemma registry_inv_found:
  assumes inv: "registry_inv impl st"
    and found: "by_type st (Type impl M (world st)) (GenericId impl M (world st)) k = Some M"
  shows "registry_inv impl (UnregisterModule_found k (Type impl M (world st))
            (GenericId impl M (world st)) (SpecificId impl M (world st)) st)"
proof -
  let ?T = "Type impl M (world st)" and ?G = "GenericId impl M (world st)"
  let ?S = "SpecificId impl M (world st)"
  have k: "k = ?S" and byid: "GetModuleById ?G ?S st = Some M"
    using registry_invD1[OF inv found] by simp_all
  let ?st' = "UnregisterModule_found ?S ?T ?G ?S st"
  have "registry_inv impl ?st'"
  proof (rule registry_invI)
    fix t g s m assume a: "by_type ?st' t g s = Some m"
    then have neq: "\<not> (t = ?T \<and> g = ?G \<and> s = ?S)" and old: "by_type st t g s = Some m"
      by (simp_all add: found_byType split: if_splits)
    note d = registry_invD1[OF inv old]
    have "\<not> (g = ?G \<and> s = ?S)"
    proof
      assume gs: "g = ?G \<and> s = ?S"
      from d have "GetModuleById g s st = Some m" by blast
      with gs byid have "m = M" by (metis option.inject)
      with d have "t = ?T" by blast
      with neq gs show False by blast
    qed
    then have "GetModuleById g s ?st' = GetModuleById g s st"
      by (simp only: found_GetModuleById if_False)
    with d show "GetModuleById g s ?st' = Some m \<and> Type impl m (world ?st') = t \<and>
           GenericId impl m (world ?st') = g \<and> SpecificId impl m (world ?st') = s"
      by (simp only: found_world)
  next
    fix g s m assume a: "GetModuleById g s ?st' = Some m"
    then have neq: "\<not> (g = ?G \<and> s = ?S)" and old: "GetModuleById g s st = Some m"
      by (simp_all add: found_GetModuleById split: if_splits)
    note d = registry_invD2[OF inv old]
    from neq have "by_type ?st' (Type impl m (world st)) g s = by_type st (Type impl m (world st)) g s"
      by (auto simp only: found_byType split: if_splits)
    with d show "by_type ?st' (Type impl m (world ?st')) g s = Some m \<and>
           GenericId impl m (world ?st') = g \<and> SpecificId impl m (world ?st') = s"
      by (simp only: found_world)
  next
    show "no_empty_buckets ?st'"
      using registry_invD3[OF inv] by (rule found_no_empty_buckets)
  qed
  then show ?thesis by (simp add: k)
qed

lemma registry_inv_unregister:
  assumes inv: "registry_inv impl st"
  shows "registry_inv impl (snd (UnregisterModule impl ks M st))"
proof -
  let ?T = "Type impl M (world st)" and ?G = "GenericId impl M (world st)"
  let ?S = "SpecificId impl M (world st)"
  let ?b = "index_map (index_map (registeredModulesByType st) ?T) ?G"
  show ?thesis
  proof (cases rule: UnregisterModule_range_cases[of ks ?b M ?T ?G ?S st])
    case not_found
    with inv show ?thesis by (simp add: UnregisterModule_def Let_def)
  next
    case (found k)
    then have "by_type st ?T ?G k = Some M" by (simp add: by_type_def index2_def)
    from registry_inv_found[OF inv this] found(3) show ?thesis
      by (simp add: UnregisterModule_def Let_def)
  qed
qed

lemma reachable_registry_inv:
  assumes "hooks_keep_identity impl" "reachable impl st"
  shows "registry_inv impl st"
  using assms(2)
proof (induction rule: reachable.induct)
  case (reachable_init w)
  show ?case by (rule registry_inv_init)
next
  case (reachable_register st m)
  then show ?case by (intro registry_inv_register assms(1))
next
  case (reachable_unregister st ks m)
  then show ?case by (intro registry_inv_unregister)
next
  case (reachable_world st w)
  then show ?case by (intro registry_inv_world)
qed

section \<open>Removing a registered module\<close>

lemma count_delete:
  assumes "index2 fm G S \<noteq> None"
    and "\<And>g s. index2 fm' g s = (if g = G \<and> s = S then None else index2 fm g s)"
  shows "countFullModuleMap fm' + 1 = countFullModuleMap fm"
proof -
  have "entries fm' = entries fm - {(G, S)}"
    by (auto simp: entries_def assms(2) split: if_splits)
  moreover have "(G, S) \<in> entries fm"
    using assms(1) by (simp add: entries_def)
  ultimately have "card (entries fm') + 1 = card (entries fm)"
    using card_Suc_Diff1[OF finite_entries, of "(G, S)" fm] by simp
  then show ?thesis
    by (simp only: countFullModuleMap_card)
qed

lemma no_empty_values_absent:
  assumes "no_empty_values fm" and "\<And>s. index2 fm g s = None"
  shows "fmlookup fm g = None"
proof (rule ccontr)
  assume "fmlookup fm g \<noteq> None"
  then obtain b where b: "fmlookup fm g = Some b" by blast
  with assms(1) have "b \<noteq> fmempty" by (simp add: no_empty_values_def)
  then obtain s where "fmlookup b s \<noteq> None"
    by (metis fmap_ext fmempty_lookup)
  with b assms(2)[of s] show False by (simp add: index2_def index_map_def)
qed

lemma no_empty_type_bucket:
  assumes "no_empty_buckets st" and "\<And>g s. by_type st t g s = None"
  shows "fmlookup (registeredModulesByType st) t = None"
proof (rule ccontr)
  assume "fmlookup (registeredModulesByType st) t \<noteq> None"
  then obtain fm where fm: "fmlookup (registeredModulesByType st) t = Some fm" by blast
  with assms(1) have ne: "fm \<noteq> fmempty" "no_empty_values fm"
    by (auto simp: no_empty_buckets_def no_empty_values_def)
  have "index2 fm g s = None" for g s
    using assms(2)[of g s] fm by (simp add: by_type_def index_map_def)
  then have "fmlookup fm g = None" for g
    using ne(2) by (intro no_empty_values_absent)
  with ne(1) show False
    by (metis fmap_ext fmempty_lookup)
qed

lemma reachable_no_empty_buckets: "reachable impl st \<Longrightarrow> no_empty_buckets st"
proof (induction rule: reachable.induct)
  case (reachable_init w)
  show ?case by (simp add: init_def no_empty_buckets_def no_empty_values_def)
next
  case (reachable_register st m)
  show ?case
  proof (cases rule: RegisterModule_cases[of st impl m])
    case (collision x)
    with reachable_register show ?thesis by simp
  next
    case (hook err w')
    with reachable_register show ?thesis by (simp add: no_empty_buckets_def)
  next
    case (success w')
    from RegisterModule_success_facts(7)[OF success] reachable_register show ?thesis by blast
  qed
next
  case (reachable_unregister st ks m)
  show ?case
  proof (cases rule: UnregisterModule_range_cases[of ks
      "index_map (index_map (registeredModulesByType st) (Type impl m (world st)))
         (GenericId impl m (world st))" m "Type impl m (world st)" "GenericId impl m (world st)"
      "SpecificId impl m (world st)" st])
    case not_found
    with reachable_unregister show ?thesis by (simp add: UnregisterModule_def Let_def)
  next
    case (found k)
    with reachable_unregister show ?thesis
      by (simp add: UnregisterModule_def Let_def found_no_empty_buckets)
  qed
next
  case (reachable_world st w)
  then show ?case by (simp add: no_empty_buckets_def)
qed

lemma registry_inv_registered:
  assumes "registry_inv impl st"
    and "GetModuleById (GenericId impl M (world st)) (SpecificId impl M (world st)) st = Some M"
  shows "registered impl M st"
  unfolding registered_def
proof (intro conjI allI impI)
  show "by_type st (Type impl M (world st)) (GenericId impl M (world st))
          (SpecificId impl M (world st)) = Some M"
    using registry_invD2[OF assms] by blast
  show "GetModuleById (GenericId impl M (world st)) (SpecificId impl M (world st)) st = Some M"
    by (rule assms(2))
next
  fix t g s assume "by_type st t g s = Some M"
  from registry_invD1[OF assms(1) this]
  show "t = Type impl M (world st)" "g = GenericId impl M (world st)"
    "s = SpecificId impl M (world st)" by simp_all
next
  fix g s assume "GetModuleById g s st = Some M"
  from registry_invD2[OF assms(1) this]
  show "g = GenericId impl M (world st)" "s = SpecificId impl M (world st)" by simp_all
qed

lemma UnregisterModule_registered:
  assumes reg: "registered impl M st"
    and ord: "range_order ks (index_map (index_map (registeredModulesByType st)
                (Type impl M (world st))) (GenericId impl M (world st)))"
  shows "UnregisterModule impl ks M st =
           (None, UnregisterModule_found (SpecificId impl M (world st)) (Type impl M (world st))
                    (GenericId impl M (world st)) (SpecificId impl M (world st)) st)"
proof -
  let ?T = "Type impl M (world st)" and ?G = "GenericId impl M (world st)"
  let ?S = "SpecificId impl M (world st)"
  let ?b = "index_map (index_map (registeredModulesByType st) ?T) ?G"
  have S: "fmlookup ?b ?S = Some M"
    using reg by (simp add: registered_def by_type_def index2_def)
  then have "?S \<in> set ks"
    using ord by (auto simp: range_order_def fmlookup_dom'_iff)
  show ?thesis
  proof (cases rule: UnregisterModule_range_cases[of ks ?b M ?T ?G ?S st])
    case not_found
    with S \<open>?S \<in> set ks\<close> show ?thesis by blast
  next
    case (found k)
    then have "by_type st ?T ?G k = Some M" by (simp add: by_type_def index2_def)
    with reg have "k = ?S" unfolding registered_def by blast
    with found(3) show ?thesis by (simp add: UnregisterModule_def Let_def)
  qed
qed

section \<open>The claims\<close>

lemmas example_simps =
  RegisterModule_def UnregisterModule_def UnregisterModule_found_def GenericModule_impl_def
  example_world_def example_init_def NewGenericModule_def GenericModule_GenericId_def
  GenericModule_SpecificId_def GenericModule_Type_def GenericModule_Register_def
  GenericModule_Unregister_def init_def index2_def index_map_def update_at_def len_def
  GetModuleById_def GetAllModulesCount_def GetAllModules_def countFullModuleMap_def
  GetModuleCountByType_def GetModulesByType_def GetDefaultModuleByGenericId_def by_type_def
  Let_def

lemma registry_inv_absent:
  assumes "registry_inv impl st" and "GetModuleById g s st = None"
  shows "by_type st t g s = None"
proof (rule ccontr)
  assume "by_type st t g s \<noteq> None"
  then obtain m where "by_type st t g s = Some m" by blast
  from registry_invD1[OF assms(1) this] assms(2) show False by simp
qed

lemma UnregisterModule_world: "world (snd (UnregisterModule impl ks M st)) = world st"
proof (cases rule: UnregisterModule_range_cases[of ks
      "index_map (index_map (registeredModulesByType st) (Type impl M (world st)))
         (GenericId impl M (world st))" M "Type impl M (world st)" "GenericId impl M (world st)"
      "SpecificId impl M (world st)" st])
  case not_found
  then show ?thesis by (simp add: UnregisterModule_def Let_def)
next
  case (found k)
  then show ?thesis by (simp add: UnregisterModule_def Let_def found_world)
qed

text \<open>
  C1. Take a module whose pair of ids is not in the by-id index and whose \<^verbatim>\<open>Register\<close>
  hook returns no error. Then \<^verbatim>\<open>RegisterModule\<close> returns no error, and in the state it
  leaves \<^verbatim>\<open>GetModuleById\<close> returns the module for its pair of ids,
  \<^verbatim>\<open>GetModulesByType\<close> for its type holds it under its generic and specific id, and
  \<^verbatim>\<open>GetAllModulesCount\<close> is one more than before. \<^verbatim>\<open>GetModuleCountByType\<close> for its
  type is one more than before when the pair is not in the by-type index under this type
  either: in a state that satisfies \<open>registry_inv\<close>, as every reachable state does when
  identities do not change, a pair that is not in the by-id index is in the by-type index
  under no type (\<open>registry_inv_absent\<close>). The ids are the ones the call reads: the generic
  and specific id before the hook runs, the type after it.
\<close>

theorem RegisterModule_registers:
  assumes "GetModuleById (GenericId impl M (world st)) (SpecificId impl M (world st)) st = None"
    and "Register impl M (world st) = (None, w')"
  shows "fst (RegisterModule impl M st) = None \<and>
         GetModuleById (GenericId impl M (world st)) (SpecificId impl M (world st))
           (snd (RegisterModule impl M st)) = Some M \<and>
         (\<exists>fm b. GetModulesByType (Type impl M w') (snd (RegisterModule impl M st)) = Some fm \<and>
                 fmlookup fm (GenericId impl M (world st)) = Some b \<and>
                 fmlookup b (SpecificId impl M (world st)) = Some M) \<and>
         GetAllModulesCount (snd (RegisterModule impl M st)) = GetAllModulesCount st + 1 \<and>
         (by_type st (Type impl M w') (GenericId impl M (world st))
            (SpecificId impl M (world st)) = None \<longrightarrow>
          GetModuleCountByType (Type impl M w') (snd (RegisterModule impl M st)) =
            GetModuleCountByType (Type impl M w') st + 1)"
proof -
  have absent: "index2 (registeredModulesById st) (GenericId impl M (world st))
                  (SpecificId impl M (world st)) = None"
    using assms(1) by (simp add: GetModuleById_def)
  note f = RegisterModule_success_facts[OF absent assms(2)]
  have "\<exists>fm b. GetModulesByType (Type impl M w') (snd (RegisterModule impl M st)) = Some fm \<and>
                 fmlookup fm (GenericId impl M (world st)) = Some b \<and>
                 fmlookup b (SpecificId impl M (world st)) = Some M"
    by (simp add: RegisterModule_success[OF absent assms(2)] GetModulesByType_def)
  with f(1,3,5,6) show ?thesis by simp
qed

theorem RegisterModule_registers_witness:
  "GetModuleById ''complete-module'' ''specific''
     (snd (RegisterModule GenericModule_impl 0 example_init)) = None \<and>
   by_type (snd (RegisterModule GenericModule_impl 0 example_init))
     ''sample-module'' ''complete-module'' ''specific'' = None \<and>
   fst (RegisterModule GenericModule_impl 1
          (snd (RegisterModule GenericModule_impl 0 example_init))) = None \<and>
   GetModuleById ''complete-module'' ''specific''
     (snd (RegisterModule GenericModule_impl 1
        (snd (RegisterModule GenericModule_impl 0 example_init)))) = Some 1 \<and>
   GetAllModulesCount
     (snd (RegisterModule GenericModule_impl 1
        (snd (RegisterModule GenericModule_impl 0 example_init)))) = 2 \<and>
   GetModuleCountByType ''sample-module''
     (snd (RegisterModule GenericModule_impl 1
        (snd (RegisterModule GenericModule_impl 0 example_init)))) = 2"
proof -
  let ?st = "snd (RegisterModule GenericModule_impl 0 example_init)"
  have w: "world ?st = example_world"
    by (simp add: example_simps)
  have ids: "GenericId GenericModule_impl 1 example_world = ''complete-module''"
    "SpecificId GenericModule_impl 1 example_world = ''specific''"
    "Type GenericModule_impl 1 example_world = ''sample-module''"
    by (simp_all add: example_simps)
  have h1: "GetModuleById (GenericId GenericModule_impl 1 (world ?st))
              (SpecificId GenericModule_impl 1 (world ?st)) ?st = None"
    unfolding w ids by (simp add: example_simps)
  have h2: "Register GenericModule_impl 1 (world ?st) = (None, example_world)"
    unfolding w by (simp add: example_simps)
  have h3: "by_type ?st (Type GenericModule_impl 1 example_world)
              (GenericId GenericModule_impl 1 (world ?st))
              (SpecificId GenericModule_impl 1 (world ?st)) = None"
    unfolding w ids by (simp add: example_simps)
  have c: "GetAllModulesCount ?st = 1" "GetModuleCountByType ''sample-module'' ?st = 1"
    by (simp_all add: example_simps)
  from RegisterModule_registers[OF h1 h2] h1 h3 c show ?thesis
    unfolding w ids by simp
qed

text \<open>
  C2. When the pair of ids that the module reports is already in the by-id index,
  \<^verbatim>\<open>RegisterModule\<close> returns the collision error built from both ids and the whole
  state, the registry and the module objects, is as before. The result is the same whatever
  the module's \<^verbatim>\<open>Register\<close> hook is: the hook is not run. The total count is
  unchanged, and the pair still holds the module it held.
\<close>

theorem RegisterModule_collision:
  assumes "GetModuleById (GenericId impl M (world st)) (SpecificId impl M (world st)) st = Some x"
  shows "RegisterModule impl M st =
           (Some (Errorf ''id colision detected : %q / %q''
              [GenericId impl M (world st), SpecificId impl M (world st)]), st) \<and>
         RegisterModule (impl\<lparr>Register := hook\<rparr>) M st = RegisterModule impl M st \<and>
         GetAllModulesCount (snd (RegisterModule impl M st)) = GetAllModulesCount st \<and>
         GetModuleById (GenericId impl M (world st)) (SpecificId impl M (world st))
           (snd (RegisterModule impl M st)) = Some x"
  using assms by (simp add: RegisterModule_def GetModuleById_def Let_def)

theorem RegisterModule_collision_witness:
  "GetModuleById (GenericId GenericModule_impl 2 example_world)
     (SpecificId GenericModule_impl 2 example_world)
     (snd (RegisterModule GenericModule_impl 1 example_init)) = Some 1 \<and>
   RegisterModule GenericModule_impl 2 (snd (RegisterModule GenericModule_impl 1 example_init)) =
     (Some (Errorf ''id colision detected : %q / %q'' [''complete-module'', ''specific'']),
      snd (RegisterModule GenericModule_impl 1 example_init)) \<and>
   GetAllModulesCount
     (snd (RegisterModule GenericModule_impl 2
        (snd (RegisterModule GenericModule_impl 1 example_init)))) = 1"
proof -
  let ?st = "snd (RegisterModule GenericModule_impl 1 example_init)"
  have w: "world ?st = example_world"
    by (simp add: example_simps)
  have h: "GetModuleById (GenericId GenericModule_impl 2 (world ?st))
             (SpecificId GenericModule_impl 2 (world ?st)) ?st = Some 1"
    unfolding w by (simp add: example_simps)
  have c: "GetAllModulesCount ?st = 1"
    by (simp add: example_simps)
  have ids: "GenericId GenericModule_impl 2 example_world = ''complete-module''"
    "SpecificId GenericModule_impl 2 example_world = ''specific''"
    by (simp_all add: example_simps)
  from RegisterModule_collision[OF h] h c show ?thesis
    unfolding w ids by simp
qed

text \<open>
  C3. When the pair of ids is not in the by-id index and the module's \<^verbatim>\<open>Register\<close> hook
  returns an error, \<^verbatim>\<open>RegisterModule\<close> returns this very error and both indices are as
  before the call; only the module objects are as the hook left them.
\<close>

theorem RegisterModule_hook_failure:
  assumes "GetModuleById (GenericId impl M (world st)) (SpecificId impl M (world st)) st = None"
    and "Register impl M (world st) = (Some err, w')"
  shows "fst (RegisterModule impl M st) = Some err \<and>
         registeredModulesByType (snd (RegisterModule impl M st)) = registeredModulesByType st \<and>
         registeredModulesById (snd (RegisterModule impl M st)) = registeredModulesById st \<and>
         world (snd (RegisterModule impl M st)) = w'"
  using assms by (simp add: RegisterModule_def GetModuleById_def Let_def)

theorem RegisterModule_hook_failure_witness:
  "GetModuleById ''complete-module'' '''' example_init = None \<and>
   fst (RegisterModule
          (GenericModule_impl\<lparr>Register := \<lambda>gm w. (Some (Errorf ''refused'' []), w)\<rparr>)
          0 example_init) = Some (Errorf ''refused'' []) \<and>
   registeredModulesById (snd (RegisterModule
          (GenericModule_impl\<lparr>Register := \<lambda>gm w. (Some (Errorf ''refused'' []), w)\<rparr>)
          0 example_init)) = fmempty"
proof -
  let ?impl = "GenericModule_impl\<lparr>Register := \<lambda>gm w. (Some (Errorf ''refused'' []), w)\<rparr>"
  let ?st = "example_init"
  have h1: "GetModuleById (GenericId ?impl 0 (world ?st)) (SpecificId ?impl 0 (world ?st)) ?st = None"
    by (simp add: example_simps)
  have h2: "Register ?impl 0 (world ?st) = (Some (Errorf ''refused'' []), example_world)"
    by (simp add: example_simps)
  have e: "registeredModulesById ?st = fmempty" "GetModuleById ''complete-module'' '''' ?st = None"
    by (simp_all add: example_simps)
  from RegisterModule_hook_failure[OF h1 h2] e show ?thesis by simp
qed

text \<open>
  C4. Take a registered module whose identity is what it was when it was registered, in a
  registry without empty buckets, and any order in which the loop may visit the keys of the
  module's bucket. Then \<^verbatim>\<open>UnregisterModule\<close> returns no error; afterwards the module is
  under no key of the by-type index and under no key of the by-id index,
  \<^verbatim>\<open>GetAllModulesCount\<close> and \<^verbatim>\<open>GetModuleCountByType\<close> for its type are one less than
  before, and the registry still has no empty bucket: when the module was the last one of its
  generic id within its type, the generic-id bucket is gone from the type bucket; when it was
  the last one of its type, \<^verbatim>\<open>GetModulesByType\<close> returns nil and the count of the type
  is 0; when it was the last one of its generic id, \<^verbatim>\<open>GetModulesByGenericId\<close> returns nil.
  Every reachable state is without empty buckets (\<open>reachable_no_empty_buckets\<close>), and a
  module of the by-id index is registered in this sense in every state that satisfies
  \<open>registry_inv\<close> (\<open>registry_inv_registered\<close>).
\<close>

theorem UnregisterModule_removes:
  assumes reg: "registered impl M st"
    and ne: "no_empty_buckets st"
    and ord: "range_order ks (index_map (index_map (registeredModulesByType st)
                (Type impl M (world st))) (GenericId impl M (world st)))"
  shows "fst (UnregisterModule impl ks M st) = None \<and>
         (\<forall>t g s. by_type (snd (UnregisterModule impl ks M st)) t g s \<noteq> Some M) \<and>
         (\<forall>g s. GetModuleById g s (snd (UnregisterModule impl ks M st)) \<noteq> Some M) \<and>
         GetAllModulesCount (snd (UnregisterModule impl ks M st)) + 1 = GetAllModulesCount st \<and>
         GetModuleCountByType (Type impl M (world st)) (snd (UnregisterModule impl ks M st)) + 1 =
           GetModuleCountByType (Type impl M (world st)) st \<and>
         no_empty_buckets (snd (UnregisterModule impl ks M st)) \<and>
         ((\<forall>s. by_type (snd (UnregisterModule impl ks M st)) (Type impl M (world st))
                 (GenericId impl M (world st)) s = None) \<longrightarrow>
          (\<forall>fm. GetModulesByType (Type impl M (world st)) (snd (UnregisterModule impl ks M st)) = Some fm
                 \<longrightarrow> fmlookup fm (GenericId impl M (world st)) = None)) \<and>
         ((\<forall>g s. by_type (snd (UnregisterModule impl ks M st)) (Type impl M (world st)) g s = None) \<longrightarrow>
          GetModulesByType (Type impl M (world st)) (snd (UnregisterModule impl ks M st)) = None \<and>
          GetModuleCountByType (Type impl M (world st)) (snd (UnregisterModule impl ks M st)) = 0) \<and>
         ((\<forall>s. GetModuleById (GenericId impl M (world st)) s
                  (snd (UnregisterModule impl ks M st)) = None) \<longrightarrow>
          GetModulesByGenericId (GenericId impl M (world st))
            (snd (UnregisterModule impl ks M st)) = None)"
proof -
  let ?T = "Type impl M (world st)" and ?G = "GenericId impl M (world st)"
  let ?S = "SpecificId impl M (world st)"
  let ?st' = "UnregisterModule_found ?S ?T ?G ?S st"
  have eq: "UnregisterModule impl ks M st = (None, ?st')"
    by (rule UnregisterModule_registered[OF reg ord])
  have bt: "by_type ?st' t g s = (if t = ?T \<and> g = ?G \<and> s = ?S then None else by_type st t g s)"
    for t g s by (rule found_byType)
  have bi: "GetModuleById g s ?st' = (if g = ?G \<and> s = ?S then None else GetModuleById g s st)"
    for g s by (rule found_GetModuleById)
  have r1: "by_type st ?T ?G ?S = Some M" and r2: "GetModuleById ?G ?S st = Some M"
    and r3: "\<And>t g s. by_type st t g s = Some M \<Longrightarrow> t = ?T \<and> g = ?G \<and> s = ?S"
    and r4: "\<And>g s. GetModuleById g s st = Some M \<Longrightarrow> g = ?G \<and> s = ?S"
    using reg unfolding registered_def by blast+
  have 1: "by_type ?st' t g s \<noteq> Some M" for t g s
  proof
    assume a: "by_type ?st' t g s = Some M"
    then have "\<not> (t = ?T \<and> g = ?G \<and> s = ?S)"
      unfolding bt by (metis option.distinct(1))
    moreover from this a have "by_type st t g s = Some M"
      unfolding bt by (simp only: if_False)
    ultimately show False using r3 by blast
  qed
  have 2: "GetModuleById g s ?st' \<noteq> Some M" for g s
  proof
    assume a: "GetModuleById g s ?st' = Some M"
    then have "\<not> (g = ?G \<and> s = ?S)"
      unfolding bi by (metis option.distinct(1))
    moreover from this a have "GetModuleById g s st = Some M"
      unfolding bi by (simp only: if_False)
    ultimately show False using r4 by blast
  qed
  have 3: "GetAllModulesCount ?st' + 1 = GetAllModulesCount st"
    unfolding GetAllModulesCount_def GetAllModules_def
    using r2 by (intro count_delete[of _ ?G ?S]) (simp_all add: GetModuleById_def found_byId)
  have 4: "GetModuleCountByType ?T ?st' + 1 = GetModuleCountByType ?T st"
    unfolding GetModuleCountByType_def GetModulesByType_def index_map_case
  proof (rule count_delete[of _ ?G ?S])
    show "index2 (index_map (registeredModulesByType st) ?T) ?G ?S \<noteq> None"
      using r1 by (simp add: by_type_def)
    show "index2 (index_map (registeredModulesByType ?st') ?T) g s =
            (if g = ?G \<and> s = ?S then None
             else index2 (index_map (registeredModulesByType st) ?T) g s)" for g s
      using bt[of ?T g s] by (simp add: by_type_def)
  qed
  have 5: "no_empty_buckets ?st'"
    using ne by (rule found_no_empty_buckets)
  have 6: "fmlookup fm ?G = None"
    if a: "\<forall>s. by_type ?st' ?T ?G s = None" and b: "GetModulesByType ?T ?st' = Some fm" for fm
  proof (rule no_empty_values_absent)
    show "no_empty_values fm"
      using 5 b by (auto simp: no_empty_buckets_def GetModulesByType_def)
    show "index2 fm ?G s = None" for s
      using a b by (simp add: by_type_def GetModulesByType_def index_map_def)
  qed
  have 7: "GetModulesByType ?T ?st' = None \<and> GetModuleCountByType ?T ?st' = 0"
    if a: "\<forall>g s. by_type ?st' ?T g s = None"
  proof -
    have "fmlookup (registeredModulesByType ?st') ?T = None"
      using 5 a by (intro no_empty_type_bucket) simp_all
    then show ?thesis
      by (simp add: GetModulesByType_def GetModuleCountByType_def countFullModuleMap_def)
  qed
  have 8: "GetModulesByGenericId ?G ?st' = None" if a: "\<forall>s. GetModuleById ?G s ?st' = None"
    unfolding GetModulesByGenericId_def
  proof (rule no_empty_values_absent)
    show "no_empty_values (registeredModulesById ?st')"
      using 5 by (simp add: no_empty_buckets_def)
    show "index2 (registeredModulesById ?st') ?G s = None" for s
      using a by (simp add: GetModuleById_def)
  qed
  from 1 2 3 4 5 6 7 8 show ?thesis
    unfolding eq snd_conv fst_conv by blast
qed

theorem UnregisterModule_removes_witness:
  "registered GenericModule_impl 1
     (snd (RegisterModule GenericModule_impl 1 (snd (RegisterModule GenericModule_impl 0 example_init)))) \<and>
   no_empty_buckets
     (snd (RegisterModule GenericModule_impl 1 (snd (RegisterModule GenericModule_impl 0 example_init)))) \<and>
   range_order [''specific'', '''']
     (index_map (index_map (registeredModulesByType
        (snd (RegisterModule GenericModule_impl 1 (snd (RegisterModule GenericModule_impl 0 example_init)))))
        ''sample-module'') ''complete-module'') \<and>
   fst (UnregisterModule GenericModule_impl [''specific'', ''''] 1
     (snd (RegisterModule GenericModule_impl 1 (snd (RegisterModule GenericModule_impl 0 example_init))))) = None \<and>
   GetAllModulesCount (snd (UnregisterModule GenericModule_impl [''specific'', ''''] 1
     (snd (RegisterModule GenericModule_impl 1 (snd (RegisterModule GenericModule_impl 0 example_init)))))) = 1 \<and>
   GetModuleById ''complete-module'' ''specific'' (snd (UnregisterModule GenericModule_impl [''specific'', ''''] 1
     (snd (RegisterModule GenericModule_impl 1 (snd (RegisterModule GenericModule_impl 0 example_init)))))) \<noteq> Some 1"
proof -
  let ?st = "snd (RegisterModule GenericModule_impl 1 (snd (RegisterModule GenericModule_impl 0 example_init)))"
  have w: "world ?st = example_world"
    by (simp add: example_simps)
  have ids: "GenericId GenericModule_impl 1 example_world = ''complete-module''"
    "SpecificId GenericModule_impl 1 example_world = ''specific''"
    "Type GenericModule_impl 1 example_world = ''sample-module''"
    by (simp_all add: example_simps)
  have bt: "by_type ?st t g s =
      (if t = ''sample-module'' \<and> g = ''complete-module'' \<and> s = ''specific'' then Some 1
       else if t = ''sample-module'' \<and> g = ''complete-module'' \<and> s = '''' then Some 0 else None)"
    for t g s
    by (simp add: example_simps)
  have bi: "GetModuleById g s ?st =
      (if g = ''complete-module'' \<and> s = ''specific'' then Some 1
       else if g = ''complete-module'' \<and> s = '''' then Some 0 else None)"
    for g s
    by (simp add: example_simps)
  have h1: "registered GenericModule_impl 1 ?st"
    unfolding registered_def w ids bt bi by simp
  have h2: "no_empty_buckets ?st"
    by (simp add: no_empty_buckets_def no_empty_values_def example_simps)
  have h3: "range_order [''specific'', '''']
     (index_map (index_map (registeredModulesByType ?st) (Type GenericModule_impl 1 (world ?st)))
        (GenericId GenericModule_impl 1 (world ?st)))"
    unfolding w ids by (auto simp add: range_order_def example_simps)
  have c: "GetAllModulesCount ?st = 2"
    by (simp add: example_simps)
  from UnregisterModule_removes[OF h1 h2 h3] h1 h2 h3 c show ?thesis
    unfolding w ids by simp
qed

text \<open>
  C5. When no entry of the by-type bucket for the type and the generic id that the module
  reports now is the module itself, \<^verbatim>\<open>UnregisterModule\<close> returns the error
  \<^verbatim>\<open>module not found\<close> and the whole state is as before, in whatever order the loop
  visits the keys.
\<close>

theorem UnregisterModule_not_found:
  assumes "\<forall>k. by_type st (Type impl M (world st)) (GenericId impl M (world st)) k \<noteq> Some M"
  shows "UnregisterModule impl ks M st = (Some (Errorf ''module not found'' []), st)"
proof -
  let ?b = "index_map (index_map (registeredModulesByType st) (Type impl M (world st)))
              (GenericId impl M (world st))"
  have none: "fmlookup ?b k \<noteq> Some M" for k
    using assms by (simp add: by_type_def index2_def)
  show ?thesis
  proof (cases rule: UnregisterModule_range_cases[of ks ?b M "Type impl M (world st)"
                       "GenericId impl M (world st)" "SpecificId impl M (world st)" st])
    case not_found
    then show ?thesis by (simp add: UnregisterModule_def Let_def)
  next
    case (found k)
    with none[of k] show ?thesis by simp
  qed
qed

theorem UnregisterModule_not_found_witness:
  "(\<forall>k. by_type (snd (RegisterModule GenericModule_impl 1 example_init))
          ''sample-module'' ''complete-module'' k \<noteq> Some 2) \<and>
   UnregisterModule GenericModule_impl [''specific''] 2
     (snd (RegisterModule GenericModule_impl 1 example_init)) =
     (Some (Errorf ''module not found'' []), snd (RegisterModule GenericModule_impl 1 example_init))"
proof -
  let ?st = "snd (RegisterModule GenericModule_impl 1 example_init)"
  have w: "world ?st = example_world"
    by (simp add: example_simps)
  have ids: "GenericId GenericModule_impl 2 example_world = ''complete-module''"
    "Type GenericModule_impl 2 example_world = ''sample-module''"
    by (simp_all add: example_simps)
  have h: "\<forall>k. by_type ?st (Type GenericModule_impl 2 (world ?st))
                 (GenericId GenericModule_impl 2 (world ?st)) k \<noteq> Some 2"
    unfolding w ids by (simp add: example_simps)
  from UnregisterModule_not_found[OF h, of "[''specific'']"] h show ?thesis
    unfolding w ids by simp
qed

text \<open>
  C6. In every state reached from the initial one by calls of \<^verbatim>\<open>RegisterModule\<close> and
  \<^verbatim>\<open>UnregisterModule\<close>, when neither the hooks nor the rest of the program change the
  identity of a module, a module is in the by-type index under some type and a generic and
  specific id exactly when it is in the by-id index under the same generic and specific id.
  A call is one step of the model: no state between its two updates is observed.
\<close>

theorem registry_dual_index_consistent:
  assumes "hooks_keep_identity impl" and "reachable impl st"
  shows "\<forall>m g s. (\<exists>t. by_type st t g s = Some m) \<longleftrightarrow> GetModuleById g s st = Some m"
proof (intro allI iffI)
  fix m g s
  note inv = reachable_registry_inv[OF assms]
  { assume "\<exists>t. by_type st t g s = Some m"
    then obtain t where "by_type st t g s = Some m" by blast
    from registry_invD1[OF inv this] show "GetModuleById g s st = Some m" by blast }
  { assume "GetModuleById g s st = Some m"
    from registry_invD2[OF inv this] show "\<exists>t. by_type st t g s = Some m" by blast }
qed

theorem registry_dual_index_consistent_witness:
  "hooks_keep_identity GenericModule_impl \<and>
   reachable GenericModule_impl
     (snd (UnregisterModule GenericModule_impl [''specific'', ''''] 0
        (snd (RegisterModule GenericModule_impl 1
           (snd (RegisterModule GenericModule_impl 0 example_init)))))) \<and>
   (\<forall>m g s.
      (\<exists>t. by_type
         (snd (UnregisterModule GenericModule_impl [''specific'', ''''] 0
            (snd (RegisterModule GenericModule_impl 1
               (snd (RegisterModule GenericModule_impl 0 example_init)))))) t g s = Some m) \<longleftrightarrow>
      GetModuleById g s
        (snd (UnregisterModule GenericModule_impl [''specific'', ''''] 0
           (snd (RegisterModule GenericModule_impl 1
              (snd (RegisterModule GenericModule_impl 0 example_init)))))) = Some m)"
proof -
  let ?st0 = "snd (RegisterModule GenericModule_impl 0 example_init)"
  let ?st1 = "snd (RegisterModule GenericModule_impl 1 ?st0)"
  have h1: "hooks_keep_identity GenericModule_impl"
    by (simp add: hooks_keep_identity_def same_identity_def GenericModule_impl_def)
  have "reachable GenericModule_impl example_init"
    unfolding example_init_def by (rule reachable_init)
  then have r1: "reachable GenericModule_impl ?st1"
    by (intro reachable_register)
  have ord: "range_order [''specific'', '''']
     (index_map (index_map (registeredModulesByType ?st1) (Type GenericModule_impl 0 (world ?st1)))
        (GenericId GenericModule_impl 0 (world ?st1)))"
    by (auto simp add: range_order_def example_simps)
  have h2: "reachable GenericModule_impl
              (snd (UnregisterModule GenericModule_impl [''specific'', ''''] 0 ?st1))"
    using r1 ord by (rule reachable_unregister)
  from registry_dual_index_consistent[OF h1 h2] h1 h2 show ?thesis by blast
qed

text \<open>
  C7 fails on the code: \<^verbatim>\<open>UnregisterModule\<close> contains no call of the module's
  \<^verbatim>\<open>Unregister\<close> method, although the interface documents it as implicitly called by
  \<^verbatim>\<open>UnregisterModule\<close>, and \<^verbatim>\<open>RegisterModule\<close> does call \<^verbatim>\<open>Register\<close>. The module
  at address 0 is registered and then removed; its \<^verbatim>\<open>Unregister\<close> hook would set the
  ready flag. The removal succeeds and the module is gone from the registry, but the flag is
  still false: the hook has not run. For every input \<^verbatim>\<open>UnregisterModule\<close> leaves the
  module objects as they are (\<open>UnregisterModule_world\<close>).
\<close>

theorem UnregisterModule_skips_Unregister_hook:
  "fst (UnregisterModule
          marking_impl
          [''''] 0
          (snd (RegisterModule
             marking_impl
             0 example_init))) = None \<and>
   GetModuleById ''complete-module'' ''''
     (snd (UnregisterModule
          marking_impl
          [''''] 0
          (snd (RegisterModule
             marking_impl
             0 example_init)))) = None \<and>
   GenericModule_Ready
     (world (snd (UnregisterModule
          marking_impl
          [''''] 0
          (snd (RegisterModule
             marking_impl
             0 example_init)))) 0) = False \<and>
   GenericModule_Ready
     (snd (Unregister
          marking_impl
          0 example_world) 0) = True"
  by (simp add: example_simps marking_impl_def GenericModule_Ready_def GenericModule_SetReady_def)

text \<open>
  C8. \<^verbatim>\<open>GetDefaultModuleByGenericId\<close> of a generic id returns what \<^verbatim>\<open>GetModuleById\<close>
  returns for this generic id and the empty specific id, in every state. A successful
  registration of a module with this generic id and a specific id that is not empty does
  not change it.
\<close>

theorem GetDefaultModuleByGenericId_default:
  "GetDefaultModuleByGenericId g st = GetModuleById g '''' st \<and>
   (GenericId impl M (world st) = g \<longrightarrow> SpecificId impl M (world st) \<noteq> '''' \<longrightarrow>
    fst (RegisterModule impl M st) = None \<longrightarrow>
    GetDefaultModuleByGenericId g (snd (RegisterModule impl M st)) =
      GetDefaultModuleByGenericId g st)"
proof -
  have "GetDefaultModuleByGenericId g (snd (RegisterModule impl M st)) =
          GetDefaultModuleByGenericId g st"
    if s: "SpecificId impl M (world st) \<noteq> ''''" and ok: "fst (RegisterModule impl M st) = None"
  proof (cases rule: RegisterModule_cases[of st impl M])
    case (collision x)
    then show ?thesis by simp
  next
    case (hook err w')
    with ok show ?thesis by simp
  next
    case (success w')
    from RegisterModule_success_facts(3)[OF success, of g "''''"] s show ?thesis
      by (simp add: GetDefaultModuleByGenericId_def GetModuleById_def)
  qed
  then show ?thesis
    by (simp add: GetDefaultModuleByGenericId_def GetModuleById_def)
qed

theorem GetDefaultModuleByGenericId_default_witness:
  "GenericId GenericModule_impl 1 example_world = ''complete-module'' \<and>
   SpecificId GenericModule_impl 1 example_world \<noteq> '''' \<and>
   fst (RegisterModule GenericModule_impl 1
          (snd (RegisterModule GenericModule_impl 0 example_init))) = None \<and>
   GetDefaultModuleByGenericId ''complete-module''
     (snd (RegisterModule GenericModule_impl 0 example_init)) = Some 0 \<and>
   GetDefaultModuleByGenericId ''complete-module''
     (snd (RegisterModule GenericModule_impl 1
        (snd (RegisterModule GenericModule_impl 0 example_init)))) = Some 0"
proof -
  let ?st = "snd (RegisterModule GenericModule_impl 0 example_init)"
  have w: "world ?st = example_world"
    by (simp add: example_simps)
  have h1: "GenericId GenericModule_impl 1 (world ?st) = ''complete-module''"
    and h2: "SpecificId GenericModule_impl 1 (world ?st) \<noteq> ''''"
    unfolding w by (simp_all add: example_simps)
  have d: "GetDefaultModuleByGenericId ''complete-module'' ?st = Some 0"
    by (simp add: example_simps)
  have h3: "fst (RegisterModule GenericModule_impl 1 ?st) = None"
    by (simp add: example_simps)
  from GetDefaultModuleByGenericId_default[of "''complete-module''" ?st GenericModule_impl 1]
    h1 h2 h3 d show ?thesis
    unfolding w by simp
qed

text \<open>
  C9. \<^verbatim>\<open>Configure\<close> of \<^verbatim>\<open>GenericModule\<close> returns no error for every receiver and every
  argument, stores the argument as the module's parameters, so that \<^verbatim>\<open>Parameters\<close> returns
  it afterwards, and leaves \<^verbatim>\<open>Ready\<close> as it was; a module fresh from
  \<^verbatim>\<open>NewGenericModule\<close> is still not ready after it.
\<close>

theorem GenericModule_Configure_keeps_ready:
  "fst (GenericModule_Configure gm p) = None \<and>
   GenericModule_Parameters (snd (GenericModule_Configure gm p)) = p \<and>
   GenericModule_Ready (snd (GenericModule_Configure gm p)) = GenericModule_Ready gm \<and>
   GenericModule_Ready
     (snd (GenericModule_Configure
        (fst (NewGenericModule name' version' genericId' specificId' moduleType' h)) p)) = False"
  by (simp add: GenericModule_Configure_def GenericModule_Parameters_def GenericModule_Ready_def
        NewGenericModule_def)

text \<open>
  C10. A module whose generic id, specific id and type are all the empty string, and whose
  \<^verbatim>\<open>Register\<close> hook returns no error, is registered without an error when the by-id index
  has nothing under the pair of empty ids; afterwards \<^verbatim>\<open>GetDefaultModuleByGenericId\<close> of
  the empty string returns it, and the by-type index holds it under the empty type.
\<close>

theorem RegisterModule_empty_identity:
  assumes "GenericId impl M (world st) = ''''" and "SpecificId impl M (world st) = ''''"
    and "Register impl M (world st) = (None, w')" and "Type impl M w' = ''''"
    and "GetModuleById '''' '''' st = None"
  shows "fst (RegisterModule impl M st) = None \<and>
         GetDefaultModuleByGenericId '''' (snd (RegisterModule impl M st)) = Some M \<and>
         by_type (snd (RegisterModule impl M st)) '''' '''' '''' = Some M"
proof -
  have absent: "index2 (registeredModulesById st) (GenericId impl M (world st))
                  (SpecificId impl M (world st)) = None"
    using assms(1,2,5) by (simp add: GetModuleById_def)
  note f = RegisterModule_success_facts[OF absent assms(3)]
  from f(1) f(3)[of "''''" "''''"] f(4)[of "''''" "''''" "''''"] assms(1,2,4) show ?thesis
    by (simp add: GetDefaultModuleByGenericId_def GetModuleById_def)
qed

theorem RegisterModule_empty_identity_witness:
  "GetModuleById '''' '''' (init (\<lambda>a. fst (NewGenericModule ''Nameless'' ''1.0.0'' '''' '''' '''' []))
      :: (addr, addr \<Rightarrow> GenericModule) state) = None \<and>
   fst (RegisterModule GenericModule_impl 0
          (init (\<lambda>a. fst (NewGenericModule ''Nameless'' ''1.0.0'' '''' '''' '''' [])))) = None \<and>
   GetDefaultModuleByGenericId ''''
     (snd (RegisterModule GenericModule_impl 0
        (init (\<lambda>a. fst (NewGenericModule ''Nameless'' ''1.0.0'' '''' '''' '''' []))))) = Some 0"
proof -
  let ?w = "\<lambda>a::addr. fst (NewGenericModule ''Nameless'' ''1.0.0'' '''' '''' '''' [])"
  let ?st = "init ?w :: (addr, addr \<Rightarrow> GenericModule) state"
  have h1: "GenericId GenericModule_impl 0 (world ?st) = ''''"
    and h2: "SpecificId GenericModule_impl 0 (world ?st) = ''''"
    and h3: "Register GenericModule_impl 0 (world ?st) = (None, ?w)"
    and h4: "Type GenericModule_impl 0 ?w = ''''"
    and h5: "GetModuleById '''' '''' ?st = None"
    by (simp_all add: example_simps)
  from RegisterModule_empty_identity[OF h1 h2 h3 h4 h5] h5 show ?thesis by simp
qed

end
